theory Spec2Isabelle
  imports Main
begin

section \<open>JavaScript strings\<close>

text \<open>
  A JavaScript string is modelled as a \<^typ>\<open>string\<close>; a \<^typ>\<open>char\<close> stands for the
  UTF-16 code unit with the same number (code units below 256).
\<close>

abbreviation NL :: char where
  "NL \<equiv> CHR 0x0A"

abbreviation CR :: char where
  "CR \<equiv> CHR 0x0D"

text \<open>The regular-expression class \<^verbatim>\<open>\s\<close>, which is also what \<^verbatim>\<open>trim()\<close> strips:
  tab, line feed, vertical tab, form feed, carriage return, space, no-break space.\<close>

definition is_space :: "char \<Rightarrow> bool" where
  "is_space c \<longleftrightarrow> c \<in> {CHR 0x09, CHR 0x0A, CHR 0x0B, CHR 0x0C, CHR 0x0D, CHR 0x20, CHR 0xA0}"

text \<open>The regular-expression dot matches every code unit except a line terminator.\<close>

definition is_dot :: "char \<Rightarrow> bool" where
  "is_dot c \<longleftrightarrow> c \<noteq> NL \<and> c \<noteq> CR"

text \<open>The class \<^verbatim>\<open>\w\<close>: ASCII letters, digits and the underscore.\<close>

definition is_word :: "char \<Rightarrow> bool" where
  "is_word c \<longleftrightarrow>
     (let n = (of_char c :: nat)
      in (48 \<le> n \<and> n \<le> 57) \<or> (65 \<le> n \<and> n \<le> 90) \<or> n = 95 \<or> (97 \<le> n \<and> n \<le> 122))"

text \<open>The class \<^verbatim>\<open>\d\<close>.\<close>

definition is_digit :: "char \<Rightarrow> bool" where
  "is_digit c \<longleftrightarrow> (let n = (of_char c :: nat) in 48 \<le> n \<and> n \<le> 57)"

definition toLowerCase_char :: "char \<Rightarrow> char" where
  "toLowerCase_char c =
     (let n = (of_char c :: nat)
      in if (65 \<le> n \<and> n \<le> 90) \<or> (192 \<le> n \<and> n \<le> 222 \<and> n \<noteq> 215)
         then char_of (n + 32) else c)"

definition toLowerCase :: "string \<Rightarrow> string" where
  "toLowerCase s = map toLowerCase_char s"

definition trim :: "string \<Rightarrow> string" where
  "trim s = rev (dropWhile is_space (rev (dropWhile is_space s)))"

primrec startsWith :: "string \<Rightarrow> string \<Rightarrow> bool" where
  "startsWith s [] \<longleftrightarrow> True"
| "startsWith s (p # ps) \<longleftrightarrow> (case s of [] \<Rightarrow> False | c # cs \<Rightarrow> c = p \<and> startsWith cs ps)"

text \<open>\<^verbatim>\<open>s.split("\n")\<close>: the empty string splits into one empty line.\<close>

fun split_newline :: "string \<Rightarrow> string list" where
  "split_newline [] = [[]]"
| "split_newline (c # cs) =
     (if c = NL then [] # split_newline cs
      else (case split_newline cs of [] \<Rightarrow> [[c]] | l # ls \<Rightarrow> (c # l) # ls))"

text \<open>\<^verbatim>\<open>xs.join(sep)\<close>.\<close>

fun join :: "string \<Rightarrow> string list \<Rightarrow> string" where
  "join sep [] = []"
| "join sep [x] = x"
| "join sep (x # y # ys) = x @ sep @ join sep (y # ys)"

text \<open>\<^verbatim>\<open>s.repeat(n)\<close>.\<close>

primrec repeat :: "string \<Rightarrow> nat \<Rightarrow> string" where
  "repeat s 0 = []"
| "repeat s (Suc n) = s @ repeat s n"

section \<open>Regular expressions as backtracking matchers\<close>

text \<open>
  Every regular expression of the source is written as a matcher in continuation-passing
  style: a matcher takes the continuation for the rest of the pattern and the remaining
  input, and returns the result of the first successful way to match, trying the
  alternatives in the order of a backtracking engine. A capture group hands the text
  it matched to the continuation.
\<close>

text \<open>A literal string.\<close>

definition lit :: "string \<Rightarrow> (string \<Rightarrow> 'a option) \<Rightarrow> string \<Rightarrow> 'a option" where
  "lit p k s = (if startsWith s p then k (drop (length p) s) else None)"

text \<open>One character of a class, captured.\<close>

definition one_of :: "(char \<Rightarrow> bool) \<Rightarrow> (char \<Rightarrow> string \<Rightarrow> 'a option) \<Rightarrow> string \<Rightarrow> 'a option" where
  "one_of P k s = (case s of [] \<Rightarrow> None | c # cs \<Rightarrow> if P c then k c cs else None)"

text \<open>\<^verbatim>\<open>[class]*\<close>, greedy: one more character is tried first; when the rest of the pattern
  fails after it, the match stops here. The accumulator is the text matched so far.\<close>

fun greedy_star :: "(char \<Rightarrow> bool) \<Rightarrow> (string \<Rightarrow> string \<Rightarrow> 'a option) \<Rightarrow> string \<Rightarrow> string \<Rightarrow> 'a option" where
  "greedy_star P k acc [] = k acc []"
| "greedy_star P k acc (c # cs) =
     (if P c
      then (case greedy_star P k (acc @ [c]) cs of Some r \<Rightarrow> Some r | None \<Rightarrow> k acc (c # cs))
      else k acc (c # cs))"

text \<open>\<^verbatim>\<open>[class]+\<close>, greedy.\<close>

definition greedy_plus :: "(char \<Rightarrow> bool) \<Rightarrow> (string \<Rightarrow> string \<Rightarrow> 'a option) \<Rightarrow> string \<Rightarrow> 'a option" where
  "greedy_plus P k s = (case s of [] \<Rightarrow> None | c # cs \<Rightarrow> if P c then greedy_star P k [c] cs else None)"

text \<open>\<^verbatim>\<open>[class]{0,n}\<close>, greedy.\<close>

fun greedy_upto :: "nat \<Rightarrow> (char \<Rightarrow> bool) \<Rightarrow> (string \<Rightarrow> string \<Rightarrow> 'a option) \<Rightarrow> string \<Rightarrow> string \<Rightarrow> 'a option" where
  "greedy_upto 0 P k acc s = k acc s"
| "greedy_upto (Suc n) P k acc [] = k acc []"
| "greedy_upto (Suc n) P k acc (c # cs) =
     (if P c
      then (case greedy_upto n P k (acc @ [c]) cs of Some r \<Rightarrow> Some r | None \<Rightarrow> k acc (c # cs))
      else k acc (c # cs))"

text \<open>\<^verbatim>\<open>[class]*?\<close>, lazy: the rest of the pattern is tried first; when it fails, one more
  character is taken.\<close>

fun lazy_star :: "(char \<Rightarrow> bool) \<Rightarrow> (string \<Rightarrow> string \<Rightarrow> 'a option) \<Rightarrow> string \<Rightarrow> string \<Rightarrow> 'a option" where
  "lazy_star P k acc [] = k acc []"
| "lazy_star P k acc (c # cs) =
     (case k acc (c # cs) of
        Some r \<Rightarrow> Some r
      | None \<Rightarrow> if P c then lazy_star P k (acc @ [c]) cs else None)"

text \<open>\<^verbatim>\<open>[class]+?\<close>, lazy.\<close>

definition lazy_plus :: "(char \<Rightarrow> bool) \<Rightarrow> (string \<Rightarrow> string \<Rightarrow> 'a option) \<Rightarrow> string \<Rightarrow> 'a option" where
  "lazy_plus P k s = (case s of [] \<Rightarrow> None | c # cs \<Rightarrow> if P c then lazy_star P k [c] cs else None)"

text \<open>\<^verbatim>\<open>$\<close> without the multiline flag: the end of the input.\<close>

definition at_end :: "'a \<Rightarrow> string \<Rightarrow> 'a option" where
  "at_end r s = (if s = [] then Some r else None)"


section \<open>Rich text\<close>

text \<open>The annotation set of a literal run; a field that is absent in the source object
  is \<^term>\<open>False\<close> here.\<close>

record Annotations =
  bold :: bool
  italic :: bool
  strikethrough :: bool
  code :: bool

definition no_annotations :: Annotations where
  "no_annotations = \<lparr>bold = False, italic = False, strikethrough = False, code = False\<rparr>"

text \<open>\<^verbatim>\<open>RichTextInput\<close>: what the decoder builds. A literal run has its content, an
  optional link target and its annotations; a mention names a page or a database.\<close>

datatype RichTextInput =
    TextInput (content: string) (link: "string option") (annotations: Annotations)
  | PageMentionInput string
  | DatabaseMentionInput string

text \<open>\<^verbatim>\<open>RichTextItemResponse\<close>: what the encoder reads from the store. Only the fields that
  \<^verbatim>\<open>richTextToMarkdown\<close> reads are kept.\<close>

datatype MentionResponse = PageMention string | DatabaseMention string | OtherMention

datatype RichTextType = TextItem "string option" | MentionItem MentionResponse | EquationItem

record RichTextItemResponse =
  item_type :: RichTextType
  plain_text :: string
  item_annotations :: Annotations

subsection \<open>Rich text to markup\<close>

definition richTextItemToMarkdown :: "RichTextItemResponse \<Rightarrow> string" where
  "richTextItemToMarkdown item =
     (case item_type item of
        MentionItem (PageMention i) \<Rightarrow> ''{{page:'' @ i @ ''}}''
      | MentionItem (DatabaseMention i) \<Rightarrow> ''{{database:'' @ i @ ''}}''
      | _ \<Rightarrow>
          (let text = plain_text item in
           if text = [] then []
           else
             (let ann = item_annotations item;
                  text = (if code ann then ''`'' @ text @ ''`'' else text);
                  text = (if bold ann then ''**'' @ text @ ''**'' else text);
                  text = (if italic ann then ''*'' @ text @ ''*'' else text);
                  text = (if strikethrough ann then ''~~'' @ text @ ''~~'' else text)
              in (case item_type item of
                    TextItem (Some url) \<Rightarrow> ''['' @ text @ '']('' @ url @ '')''
                  | _ \<Rightarrow> text))))"

definition richTextToMarkdown :: "RichTextItemResponse list \<Rightarrow> string" where
  "richTextToMarkdown richText = concat (map richTextItemToMarkdown richText)"

subsection \<open>Markup to rich text\<close>

text \<open>
  The inline pattern of \<^verbatim>\<open>parseInlineMarkdown\<close> is an alternation of seven branches, tried
  in this order at one position. Each branch returns the run that the source builds from
  its capture groups, and the input left after the match.
\<close>

text \<open>\<^verbatim>\<open>\{\{(page|database):([^}]+)\}\}\<close>; the identifier is trimmed.\<close>

definition mention_tail :: "(string \<Rightarrow> RichTextInput) \<Rightarrow> string \<Rightarrow> (RichTextInput \<times> string) option" where
  "mention_tail mk =
     lit '':'' (greedy_plus (\<lambda>c. c \<noteq> CHR ''}'')
       (\<lambda>i. lit ''}}'' (\<lambda>rest. Some (mk (trim i), rest))))"

definition alt_mention :: "string \<Rightarrow> (RichTextInput \<times> string) option" where
  "alt_mention =
     lit ''{{'' (\<lambda>s.
       case lit ''page'' (mention_tail PageMentionInput) s of
         Some r \<Rightarrow> Some r
       | None \<Rightarrow> lit ''database'' (mention_tail DatabaseMentionInput) s)"

text \<open>\<^verbatim>\<open>\[([^\]]+)\]\(([^)]+)\)\<close>\<close>

definition alt_link :: "string \<Rightarrow> (RichTextInput \<times> string) option" where
  "alt_link =
     lit ''['' (greedy_plus (\<lambda>c. c \<noteq> CHR '']'')
       (\<lambda>t. lit '']('' (greedy_plus (\<lambda>c. c \<noteq> CHR '')'')
         (\<lambda>u. lit '')'' (\<lambda>rest. Some (TextInput t (Some u) no_annotations, rest))))))"

text \<open>\<^verbatim>\<open>\*\*(.+?)\*\*\<close>, \<^verbatim>\<open>\*(.+?)\*\<close>, \<^verbatim>\<open>`(.+?)`\<close> and \<^verbatim>\<open>~~(.+?)~~\<close>: a marker,
  a lazy non-empty run of dot characters, the marker again.\<close>

definition alt_delimited :: "string \<Rightarrow> Annotations \<Rightarrow> string \<Rightarrow> (RichTextInput \<times> string) option" where
  "alt_delimited marker ann =
     lit marker (lazy_plus is_dot
       (\<lambda>t. lit marker (\<lambda>rest. Some (TextInput t None ann, rest))))"

definition alt_bold :: "string \<Rightarrow> (RichTextInput \<times> string) option" where
  "alt_bold = alt_delimited ''**'' (no_annotations\<lparr>bold := True\<rparr>)"

definition alt_italic :: "string \<Rightarrow> (RichTextInput \<times> string) option" where
  "alt_italic = alt_delimited ''*'' (no_annotations\<lparr>italic := True\<rparr>)"

definition alt_code :: "string \<Rightarrow> (RichTextInput \<times> string) option" where
  "alt_code = alt_delimited ''`'' (no_annotations\<lparr>code := True\<rparr>)"

definition alt_strikethrough :: "string \<Rightarrow> (RichTextInput \<times> string) option" where
  "alt_strikethrough = alt_delimited ''~~'' (no_annotations\<lparr>strikethrough := True\<rparr>)"

text \<open>\<^verbatim>\<open>([^[{*`~]+|[{*`~[]+)\<close>: a run of characters that start no marker, or a run of
  marker characters.\<close>

definition is_marker :: "char \<Rightarrow> bool" where
  "is_marker c \<longleftrightarrow> c \<in> {CHR ''['', CHR ''{'', CHR ''*'', CHR ''`'', CHR ''~''}"

definition alt_plain :: "string \<Rightarrow> (RichTextInput \<times> string) option" where
  "alt_plain s =
     (case greedy_plus (\<lambda>c. \<not> is_marker c) (\<lambda>t rest. Some (TextInput t None no_annotations, rest)) s of
        Some r \<Rightarrow> Some r
      | None \<Rightarrow> greedy_plus is_marker (\<lambda>t rest. Some (TextInput t None no_annotations, rest)) s)"

definition inline_match :: "string \<Rightarrow> (RichTextInput \<times> string) option" where
  "inline_match s =
     (case alt_mention s of Some r \<Rightarrow> Some r | None \<Rightarrow>
      case alt_link s of Some r \<Rightarrow> Some r | None \<Rightarrow>
      case alt_bold s of Some r \<Rightarrow> Some r | None \<Rightarrow>
      case alt_italic s of Some r \<Rightarrow> Some r | None \<Rightarrow>
      case alt_code s of Some r \<Rightarrow> Some r | None \<Rightarrow>
      case alt_strikethrough s of Some r \<Rightarrow> Some r | None \<Rightarrow>
      alt_plain s)"

text \<open>\<^verbatim>\<open>regex.exec(text)\<close> with the global flag: the first match at or after the current
  position, which is the start of the remaining input here.\<close>

fun regex_exec :: "string \<Rightarrow> (RichTextInput \<times> string) option" where
  "regex_exec [] = inline_match []"
| "regex_exec (c # cs) =
     (case inline_match (c # cs) of Some r \<Rightarrow> Some r | None \<Rightarrow> regex_exec cs)"

text \<open>What a successful matcher tells about its input.\<close>

lemma startsWith_iff: "startsWith s p \<longleftrightarrow> (\<exists>t. s = p @ t)"
  by (induction p arbitrary: s) (auto split: list.splits)

lemma lit_Some_iff: "lit p k s = Some r \<longleftrightarrow> (\<exists>t. s = p @ t \<and> k t = Some r)"
  by (auto simp: lit_def startsWith_iff)

lemma greedy_star_SomeD:
  "greedy_star P k acc s = Some r \<Longrightarrow> \<exists>a t. s = a @ t \<and> k (acc @ a) t = Some r"
proof (induction s arbitrary: acc)
  case Nil
  then show ?case by simp
next
  case (Cons c cs)
  show ?case
  proof (cases "P c \<and> greedy_star P k (acc @ [c]) cs \<noteq> None")
    case True
    with Cons.prems have "greedy_star P k (acc @ [c]) cs = Some r" by auto
    from Cons.IH [OF this] obtain a t where "cs = a @ t" "k (acc @ c # a) t = Some r" by auto
    then have "c # cs = (c # a) @ t \<and> k (acc @ (c # a)) t = Some r" by simp
    then show ?thesis by blast
  next
    case False
    with Cons.prems have "k acc (c # cs) = Some r" by (auto split: if_splits)
    then have "c # cs = [] @ (c # cs) \<and> k (acc @ []) (c # cs) = Some r" by simp
    then show ?thesis by blast
  qed
qed

lemma greedy_plus_SomeD:
  "greedy_plus P k s = Some r \<Longrightarrow> \<exists>a t. a \<noteq> [] \<and> s = a @ t \<and> k a t = Some r"
proof -
  assume a: "greedy_plus P k s = Some r"
  then obtain c cs where s: "s = c # cs" and g: "greedy_star P k [c] cs = Some r"
    by (auto simp: greedy_plus_def split: list.splits if_splits)
  from greedy_star_SomeD [OF g] obtain a t where "cs = a @ t" "k (c # a) t = Some r" by auto
  with s have "c # a \<noteq> [] \<and> s = (c # a) @ t \<and> k (c # a) t = Some r" by simp
  then show ?thesis by blast
qed

lemma lazy_star_SomeD:
  "lazy_star P k acc s = Some r \<Longrightarrow> \<exists>a t. s = a @ t \<and> k (acc @ a) t = Some r"
proof (induction s arbitrary: acc)
  case Nil
  then show ?case by simp
next
  case (Cons c cs)
  show ?case
  proof (cases "k acc (c # cs)")
    case (Some r')
    with Cons.prems have "k acc (c # cs) = Some r" by simp
    then have "c # cs = [] @ (c # cs) \<and> k (acc @ []) (c # cs) = Some r" by simp
    then show ?thesis by blast
  next
    case None
    with Cons.prems have "lazy_star P k (acc @ [c]) cs = Some r" by (auto split: if_splits)
    from Cons.IH [OF this] obtain a t where "cs = a @ t" "k (acc @ c # a) t = Some r" by auto
    then have "c # cs = (c # a) @ t \<and> k (acc @ (c # a)) t = Some r" by simp
    then show ?thesis by blast
  qed
qed

lemma lazy_plus_SomeD:
  "lazy_plus P k s = Some r \<Longrightarrow> \<exists>a t. a \<noteq> [] \<and> s = a @ t \<and> k a t = Some r"
proof -
  assume a: "lazy_plus P k s = Some r"
  then obtain c cs where s: "s = c # cs" and g: "lazy_star P k [c] cs = Some r"
    by (auto simp: lazy_plus_def split: list.splits if_splits)
  from lazy_star_SomeD [OF g] obtain a t where "cs = a @ t" "k (c # a) t = Some r" by auto
  with s have "c # a \<noteq> [] \<and> s = (c # a) @ t \<and> k (c # a) t = Some r" by simp
  then show ?thesis by blast
qed

text \<open>Every branch of the inline pattern consumes at least one character, so the
  scanning loop of \<^verbatim>\<open>parseInlineMarkdown\<close> advances.\<close>

definition shrinks :: "(string \<Rightarrow> ('a \<times> string) option) \<Rightarrow> bool" where
  "shrinks k \<longleftrightarrow> (\<forall>s x rest. k s = Some (x, rest) \<longrightarrow> length rest \<le> length s)"

lemma shrinks_Some: "shrinks (\<lambda>rest. Some (v, rest))"
  by (simp add: shrinks_def)

lemma shrinksD: "shrinks k \<Longrightarrow> k s = Some (x, rest) \<Longrightarrow> length rest \<le> length s"
  unfolding shrinks_def by blast

lemma shrinksI: "(\<And>s x rest. k s = Some (x, rest) \<Longrightarrow> length rest \<le> length s) \<Longrightarrow> shrinks k"
  unfolding shrinks_def by blast

lemma shrinks_lit: "shrinks k \<Longrightarrow> shrinks (lit p k)"
proof (rule shrinksI)
  fix s x rest
  assume k: "shrinks k" and m: "lit p k s = Some (x, rest)"
  from m obtain t where "s = p @ t" "k t = Some (x, rest)"
    unfolding lit_Some_iff by blast
  with shrinksD [OF k] show "length rest \<le> length s" by fastforce
qed

lemma shrinks_greedy_plus:
  assumes "\<And>a. shrinks (k a)"
  shows "shrinks (greedy_plus P k)"
proof (rule shrinksI)
  fix s x rest
  assume "greedy_plus P k s = Some (x, rest)"
  from greedy_plus_SomeD [OF this] obtain a t where "s = a @ t" "k a t = Some (x, rest)"
    by blast
  with shrinksD [OF assms] show "length rest \<le> length s" by fastforce
qed

lemma shrinks_lazy_plus:
  assumes "\<And>a. shrinks (k a)"
  shows "shrinks (lazy_plus P k)"
proof (rule shrinksI)
  fix s x rest
  assume "lazy_plus P k s = Some (x, rest)"
  from lazy_plus_SomeD [OF this] obtain a t where "s = a @ t" "k a t = Some (x, rest)"
    by blast
  with shrinksD [OF assms] show "length rest \<le> length s" by fastforce
qed

lemma shrinks_orelse:
  "shrinks f \<Longrightarrow> shrinks g \<Longrightarrow> shrinks (\<lambda>s. case f s of Some r \<Rightarrow> Some r | None \<Rightarrow> g s)"
  unfolding shrinks_def by (auto split: option.splits)

lemma lit_strict:
  assumes "lit p k s = Some (x, rest)" and "p \<noteq> []" and "shrinks k"
  shows "length rest < length s"
proof -
  from assms(1) obtain t where s: "s = p @ t" and kt: "k t = Some (x, rest)"
    unfolding lit_Some_iff by blast
  from shrinksD [OF assms(3) kt] have "length rest \<le> length t" .
  with s assms(2) show ?thesis by (cases p) auto
qed

lemma greedy_plus_strict:
  assumes "greedy_plus P k s = Some (x, rest)" and "\<And>a. shrinks (k a)"
  shows "length rest < length s"
proof -
  from greedy_plus_SomeD [OF assms(1)] obtain a t
    where a: "a \<noteq> []" and s: "s = a @ t" and kt: "k a t = Some (x, rest)" by blast
  from shrinksD [OF assms(2) kt] have "length rest \<le> length t" .
  with s a show ?thesis by (cases a) auto
qed

lemmas shrinks_intros =
  shrinks_Some shrinks_lit shrinks_greedy_plus shrinks_lazy_plus shrinks_orelse

lemma alt_mention_shorter: "alt_mention s = Some (x, rest) \<Longrightarrow> length rest < length s"
  unfolding alt_mention_def mention_tail_def
  by (erule lit_strict) (simp, intro shrinks_intros)

lemma alt_link_shorter: "alt_link s = Some (x, rest) \<Longrightarrow> length rest < length s"
  unfolding alt_link_def
  by (erule lit_strict) (simp, intro shrinks_intros)

lemma alt_delimited_shorter:
  "alt_delimited m a s = Some (x, rest) \<Longrightarrow> m \<noteq> [] \<Longrightarrow> length rest < length s"
  unfolding alt_delimited_def
  by (erule lit_strict) (simp, intro shrinks_intros)

lemma alt_plain_shorter: "alt_plain s = Some (x, rest) \<Longrightarrow> length rest < length s"
  unfolding alt_plain_def
  by (auto split: option.splits elim!: greedy_plus_strict intro: shrinks_intros)

lemma inline_match_shorter: "inline_match s = Some (x, rest) \<Longrightarrow> length rest < length s"
  unfolding inline_match_def alt_bold_def alt_italic_def alt_code_def alt_strikethrough_def
  by (auto split: option.splits
      dest: alt_mention_shorter alt_link_shorter alt_delimited_shorter alt_plain_shorter)

lemma regex_exec_shorter: "regex_exec s = Some (x, rest) \<Longrightarrow> length rest < length s"
proof (induction s)
  case Nil
  then show ?case by (auto dest: inline_match_shorter)
next
  case (Cons c cs)
  then show ?case
    by (cases "inline_match (c # cs)") (auto dest: inline_match_shorter)
qed

text \<open>The loop \<^verbatim>\<open>while ((match = regex.exec(text)) !== null)\<close>.\<close>

function parse_loop :: "string \<Rightarrow> RichTextInput list" where
  "parse_loop s = (case regex_exec s of None \<Rightarrow> [] | Some (x, rest) \<Rightarrow> x # parse_loop rest)"
  by pat_completeness auto
termination
  by (relation "measure length") (auto dest: regex_exec_shorter)

declare parse_loop.simps [simp del]

definition parseInlineMarkdown :: "string \<Rightarrow> RichTextInput list" where
  "parseInlineMarkdown text =
     (let items = parse_loop text
      in if items = [] \<and> text \<noteq> [] then [TextInput text None no_annotations] else items)"

section \<open>Markup to blocks\<close>

subsection \<open>Language mapping\<close>

text \<open>
  \<^verbatim>\<open>mapLanguage\<close> looks the lower-cased tag up in an object literal. A property read on an
  object literal also finds the members that every object inherits from
  \<^verbatim>\<open>Object.prototype\<close>; such a member is a function or an object, never a string, and
  it is truthy, so \<^verbatim>\<open>map[key] || key\<close> returns it.
\<close>

datatype LanguageValue = Str string | ObjectPrototypeMember string

definition language_map :: "(string \<times> string) list" where
  "language_map =
     [(''js'', ''javascript''), (''ts'', ''typescript''), (''py'', ''python''),
      (''rb'', ''ruby''), (''sh'', ''bash''), (''yml'', ''yaml''), (''md'', ''markdown''),
      ([], ''plain text'')]"

definition object_prototype_members :: "string list" where
  "object_prototype_members =
     [''constructor'', ''__defineGetter__'', ''__defineSetter__'', ''hasOwnProperty'',
      ''__lookupGetter__'', ''__lookupSetter__'', ''isPrototypeOf'', ''propertyIsEnumerable'',
      ''toString'', ''valueOf'', ''__proto__'', ''toLocaleString'']"

definition mapLanguage :: "string \<Rightarrow> LanguageValue" where
  "mapLanguage lang =
     (let key = toLowerCase lang in
      case map_of language_map key of
        Some v \<Rightarrow> Str v
      | None \<Rightarrow> if key \<in> set object_prototype_members then ObjectPrototypeMember key
                else Str key)"

subsection \<open>Block descriptors\<close>

text \<open>\<^verbatim>\<open>BlockInput\<close>: the descriptors that \<^verbatim>\<open>markdownToBlocks\<close> builds.\<close>

datatype BlockInput =
    CodeInput "RichTextInput list" LanguageValue
  | Heading1Input "RichTextInput list"
  | Heading2Input "RichTextInput list"
  | Heading3Input "RichTextInput list"
  | ToDoInput "RichTextInput list" bool
  | BulletedListItemInput "RichTextInput list"
  | NumberedListItemInput "RichTextInput list"
  | QuoteInput "RichTextInput list"
  | DividerInput
  | BookmarkInput string "RichTextInput list"
  | EmbedInput string
  | ImageInput string "RichTextInput list"
  | ParagraphInput "RichTextInput list"

text \<open>The key \<^verbatim>\<open>heading_${level}\<close>; the level is the number of hashes, 1 to 3.\<close>

definition heading_input :: "nat \<Rightarrow> RichTextInput list \<Rightarrow> BlockInput" where
  "heading_input level rt =
     (if level = 1 then Heading1Input rt else if level = 2 then Heading2Input rt
      else Heading3Input rt)"

definition plain_run :: "string \<Rightarrow> RichTextInput" where
  "plain_run t = TextInput t None no_annotations"

subsection \<open>Line patterns\<close>

text \<open>\<^verbatim>\<open>/^```(\w*)/\<close> on the trimmed line; the result is group 1.\<close>

definition langMatch :: "string \<Rightarrow> string option" where
  "langMatch = lit ''```'' (greedy_star is_word (\<lambda>w rest. Some w) [])"

text \<open>\<^verbatim>\<open>/^(#{1,3})\s+(.+)/\<close>; the result is the length of group 1 and group 2.\<close>

definition is_hash :: "char \<Rightarrow> bool" where
  "is_hash c \<longleftrightarrow> c = CHR ''#''"

definition headingMatch :: "string \<Rightarrow> (nat \<times> string) option" where
  "headingMatch =
     one_of is_hash (\<lambda>h. greedy_upto 2 is_hash
       (\<lambda>hs. greedy_plus is_space (\<lambda>ws. greedy_plus is_dot
          (\<lambda>t rest. Some (length hs, t)))) [h])"

text \<open>\<^verbatim>\<open>/^[-*]\s+\[([ xX])\]\s+(.*)/\<close>; the result is groups 1 and 2.\<close>

definition is_bullet :: "char \<Rightarrow> bool" where
  "is_bullet c \<longleftrightarrow> c = CHR ''-'' \<or> c = CHR ''*''"

definition is_check :: "char \<Rightarrow> bool" where
  "is_check c \<longleftrightarrow> c = CHR '' '' \<or> c = CHR ''x'' \<or> c = CHR ''X''"

definition todoMatch :: "string \<Rightarrow> (string \<times> string) option" where
  "todoMatch =
     one_of is_bullet (\<lambda>b. greedy_plus is_space (\<lambda>ws. lit ''[''
       (one_of is_check (\<lambda>m. lit '']'' (greedy_plus is_space
          (\<lambda>ws'. greedy_star is_dot (\<lambda>t rest. Some ([m], t)) []))))))"

text \<open>\<^verbatim>\<open>/^[-*]\s+(.*)/\<close>\<close>

definition bulletMatch :: "string \<Rightarrow> string option" where
  "bulletMatch =
     one_of is_bullet (\<lambda>b. greedy_plus is_space
       (\<lambda>ws. greedy_star is_dot (\<lambda>t rest. Some t) []))"

text \<open>\<^verbatim>\<open>/^\d+\.\s+(.*)/\<close>\<close>

definition numberedMatch :: "string \<Rightarrow> string option" where
  "numberedMatch =
     greedy_plus is_digit (\<lambda>ds. lit ''.'' (greedy_plus is_space
       (\<lambda>ws. greedy_star is_dot (\<lambda>t rest. Some t) [])))"

text \<open>\<^verbatim>\<open>/^>\s*(.*)/\<close>\<close>

definition quoteMatch :: "string \<Rightarrow> string option" where
  "quoteMatch =
     lit ''>'' (greedy_star is_space (\<lambda>ws. greedy_star is_dot (\<lambda>t rest. Some t) []) [])"

text \<open>\<^verbatim>\<open>/^[-*_]{3,}\s*$/\<close>, tested on the trimmed line.\<close>

definition is_rule :: "char \<Rightarrow> bool" where
  "is_rule c \<longleftrightarrow> c = CHR ''-'' \<or> c = CHR ''*'' \<or> c = CHR ''_''"

definition dividerTest :: "string \<Rightarrow> bool" where
  "dividerTest s \<longleftrightarrow>
     one_of is_rule (\<lambda>a. one_of is_rule (\<lambda>b. one_of is_rule (\<lambda>c.
       greedy_star is_rule (\<lambda>r. greedy_star is_space (\<lambda>ws. at_end ()) []) []))) s \<noteq> None"

text \<open>\<^verbatim>\<open>/^\{\{bookmark:([^|}]+)(?:\|([^}]+))?\}\}$/\<close> on the trimmed line; group 2 is
  absent when the optional part did not take part in the match.\<close>

definition bookmarkMatch :: "string \<Rightarrow> (string \<times> string option) option" where
  "bookmarkMatch =
     lit ''{{bookmark:'' (greedy_plus (\<lambda>c. c \<noteq> CHR ''|'' \<and> c \<noteq> CHR ''}'')
       (\<lambda>u s.
          case lit ''|'' (greedy_plus (\<lambda>c. c \<noteq> CHR ''}'')
                 (\<lambda>cap. lit ''}}'' (at_end (u, Some cap)))) s of
            Some r \<Rightarrow> Some r
          | None \<Rightarrow> lit ''}}'' (at_end (u, None)) s))"

text \<open>\<^verbatim>\<open>/^\{\{embed:([^}]+)\}\}$/\<close> on the trimmed line.\<close>

definition embedMatch :: "string \<Rightarrow> string option" where
  "embedMatch =
     lit ''{{embed:'' (greedy_plus (\<lambda>c. c \<noteq> CHR ''}'') (\<lambda>u. lit ''}}'' (at_end u)))"

text \<open>\<^verbatim>\<open>/^!\[([^\]]*)\]\(([^)]+)\)/\<close>; the result is groups 1 and 2.\<close>

definition imageMatch :: "string \<Rightarrow> (string \<times> string) option" where
  "imageMatch =
     lit ''!['' (greedy_star (\<lambda>c. c \<noteq> CHR '']'')
       (\<lambda>alt. lit '']('' (greedy_plus (\<lambda>c. c \<noteq> CHR '')'')
          (\<lambda>u. lit '')'' (\<lambda>rest. Some (alt, u))))) [])"

subsection \<open>The decoder\<close>

text \<open>The body of the loop of \<^verbatim>\<open>markdownToBlocks\<close> for a line that is neither blank nor
  a code fence: the patterns in the order of the source, the paragraph last.\<close>

definition line_block :: "string \<Rightarrow> BlockInput" where
  "line_block line =
     (case headingMatch line of
        Some (level, t) \<Rightarrow> heading_input level (parseInlineMarkdown t)
      | None \<Rightarrow>
     (case todoMatch line of
        Some (m, t) \<Rightarrow> ToDoInput (parseInlineMarkdown t) (toLowerCase m = ''x'')
      | None \<Rightarrow>
     (case bulletMatch line of
        Some t \<Rightarrow> BulletedListItemInput (parseInlineMarkdown t)
      | None \<Rightarrow>
     (case numberedMatch line of
        Some t \<Rightarrow> NumberedListItemInput (parseInlineMarkdown t)
      | None \<Rightarrow>
     (case quoteMatch line of
        Some t \<Rightarrow> QuoteInput (parseInlineMarkdown t)
      | None \<Rightarrow>
     (if dividerTest (trim line) then DividerInput
      else
     (case bookmarkMatch (trim line) of
        Some (u, cap) \<Rightarrow>
          BookmarkInput (trim u) (case cap of Some c \<Rightarrow> [plain_run (trim c)] | None \<Rightarrow> [])
      | None \<Rightarrow>
     (case embedMatch (trim line) of
        Some u \<Rightarrow> EmbedInput (trim u)
      | None \<Rightarrow>
     (case imageMatch line of
        Some (alt, u) \<Rightarrow> ImageInput u (if alt \<noteq> [] then [plain_run alt] else [])
      | None \<Rightarrow> ParagraphInput (parseInlineMarkdown line))))))))))"

definition is_fence :: "string \<Rightarrow> bool" where
  "is_fence line \<longleftrightarrow> startsWith (trim line) ''```''"

text \<open>\<^verbatim>\<open>langMatch?.[1] || "plain text"\<close>\<close>

definition fence_language :: "string \<Rightarrow> string" where
  "fence_language line =
     (case langMatch (trim line) of
        Some w \<Rightarrow> if w \<noteq> [] then w else ''plain text''
      | None \<Rightarrow> ''plain text'')"

text \<open>The loop over the lines; the argument is the lines from index \<^verbatim>\<open>i\<close> on. After an
  opening fence the lines up to the next fence line or the end of the input are the
  code, and the index moves one past them.\<close>

function markdownToBlocks_loop :: "string list \<Rightarrow> BlockInput list" where
  "markdownToBlocks_loop [] = []"
| "markdownToBlocks_loop (line # rest) =
     (if trim line = [] then markdownToBlocks_loop rest
      else if is_fence line then
        CodeInput [plain_run (join [NL] (takeWhile (\<lambda>l. \<not> is_fence l) rest))]
            (mapLanguage (fence_language line))
          # markdownToBlocks_loop (drop 1 (dropWhile (\<lambda>l. \<not> is_fence l) rest))
      else line_block line # markdownToBlocks_loop rest)"
  by pat_completeness auto
termination
proof (relation "measure length")
  fix line :: string and rest :: "string list"
  have "length (dropWhile (\<lambda>l. \<not> is_fence l) rest) \<le> length rest"
    by (rule length_dropWhile_le)
  then show "(drop 1 (dropWhile (\<lambda>l. \<not> is_fence l) rest), line # rest) \<in> measure length"
    by simp
qed auto

definition markdownToBlocks :: "string \<Rightarrow> BlockInput list" where
  "markdownToBlocks markdown = markdownToBlocks_loop (split_newline markdown)"

section \<open>Blocks to markup\<close>

subsection \<open>Blocks of the store\<close>

text \<open>A file-like payload is external or hosted; either way it has a URL
  (\<^verbatim>\<open>b.image.type === "external" ? b.image.external.url : b.image.file.url\<close>).\<close>

datatype FileSource = ExternalFile string | HostedFile string

fun source_url :: "FileSource \<Rightarrow> string" where
  "source_url (ExternalFile u) = u"
| "source_url (HostedFile u) = u"

datatype CalloutIcon = EmojiIcon string | OtherIcon

text \<open>The discriminant \<^verbatim>\<open>block.type\<close> with the payload that \<^verbatim>\<open>blockToMarkdown\<close> reads.
  \<^term>\<open>None\<close> for a caption or an icon is an absent field.\<close>

datatype BlockPayload =
    Paragraph "RichTextItemResponse list"
  | Heading_1 "RichTextItemResponse list"
  | Heading_2 "RichTextItemResponse list"
  | Heading_3 "RichTextItemResponse list"
  | Bulleted_list_item "RichTextItemResponse list"
  | Numbered_list_item "RichTextItemResponse list"
  | To_do "RichTextItemResponse list" bool
  | Toggle "RichTextItemResponse list"
  | Code "RichTextItemResponse list" string
  | Quote "RichTextItemResponse list"
  | Callout "CalloutIcon option" "RichTextItemResponse list"
  | Divider
  | Image FileSource "RichTextItemResponse list option"
  | Bookmark string "RichTextItemResponse list option"
  | Table
  | Table_row "RichTextItemResponse list list"
  | Child_page string
  | Child_database string
  | Embed string
  | Video FileSource
  | File FileSource "RichTextItemResponse list option"
  | Pdf FileSource
  | Equation string
  | Table_of_contents
  | Breadcrumb
  | Column_list
  | Column
  | Other string

record BlockObjectResponse =
  block_id :: string
  has_children :: bool
  payload :: BlockPayload

text \<open>The string \<^verbatim>\<open>block.type\<close>.\<close>

fun type_name :: "BlockPayload \<Rightarrow> string" where
  "type_name (Paragraph rt) = ''paragraph''"
| "type_name (Heading_1 rt) = ''heading_1''"
| "type_name (Heading_2 rt) = ''heading_2''"
| "type_name (Heading_3 rt) = ''heading_3''"
| "type_name (Bulleted_list_item rt) = ''bulleted_list_item''"
| "type_name (Numbered_list_item rt) = ''numbered_list_item''"
| "type_name (To_do rt checked) = ''to_do''"
| "type_name (Toggle rt) = ''toggle''"
| "type_name (Code rt lang) = ''code''"
| "type_name (Quote rt) = ''quote''"
| "type_name (Callout icon rt) = ''callout''"
| "type_name Divider = ''divider''"
| "type_name (Image src caption) = ''image''"
| "type_name (Bookmark url caption) = ''bookmark''"
| "type_name Table = ''table''"
| "type_name (Table_row cells) = ''table_row''"
| "type_name (Child_page title) = ''child_page''"
| "type_name (Child_database title) = ''child_database''"
| "type_name (Embed url) = ''embed''"
| "type_name (Video src) = ''video''"
| "type_name (File src caption) = ''file''"
| "type_name (Pdf src) = ''pdf''"
| "type_name (Equation expression) = ''equation''"
| "type_name Table_of_contents = ''table_of_contents''"
| "type_name Breadcrumb = ''breadcrumb''"
| "type_name Column_list = ''column_list''"
| "type_name Column = ''column''"
| "type_name (Other t) = t"

fun is_table_row :: "BlockPayload \<Rightarrow> bool" where
  "is_table_row (Table_row cells) = True"
| "is_table_row _ = False"

subsection \<open>The line of a block\<close>

text \<open>The branches of the \<^verbatim>\<open>switch\<close> that read nothing but the block itself. The line of a
  table and of a column list is built from fetched blocks, in \<open>blockToMarkdown\<close> below.\<close>

fun own_line :: "string \<Rightarrow> string \<Rightarrow> BlockPayload \<Rightarrow> string" where
  "own_line prefix i (Paragraph rt) = richTextToMarkdown rt"
| "own_line prefix i (Heading_1 rt) = ''# '' @ richTextToMarkdown rt"
| "own_line prefix i (Heading_2 rt) = ''## '' @ richTextToMarkdown rt"
| "own_line prefix i (Heading_3 rt) = ''### '' @ richTextToMarkdown rt"
| "own_line prefix i (Bulleted_list_item rt) = ''- '' @ richTextToMarkdown rt"
| "own_line prefix i (Numbered_list_item rt) = ''1. '' @ richTextToMarkdown rt"
| "own_line prefix i (To_do rt checked) =
     ''- ['' @ (if checked then ''x'' else '' '') @ ''] '' @ richTextToMarkdown rt"
| "own_line prefix i (Toggle rt) =
     ''<details>'' @ [NL] @ prefix @ ''<summary>'' @ richTextToMarkdown rt @ ''</summary>''"
| "own_line prefix i (Code rt lang) =
     ''```'' @ lang @ [NL] @ richTextToMarkdown rt @ [NL] @ ''```''"
| "own_line prefix i (Quote rt) = ''> '' @ richTextToMarkdown rt"
| "own_line prefix i (Callout icon rt) =
     ''> '' @ (case icon of Some (EmojiIcon e) \<Rightarrow> e @ '' '' | _ \<Rightarrow> []) @ richTextToMarkdown rt"
| "own_line prefix i Divider = ''---''"
| "own_line prefix i (Image src caption) =
     ''!['' @ (case caption of Some c \<Rightarrow> richTextToMarkdown c | None \<Rightarrow> ''image'')
       @ '']('' @ source_url src @ '')''"
| "own_line prefix i (Bookmark url caption) =
     (let caption = (case caption of
                       Some c \<Rightarrow> if c \<noteq> [] then richTextToMarkdown c else []
                     | None \<Rightarrow> [])
      in if caption \<noteq> [] then ''{{bookmark:'' @ url @ ''|'' @ caption @ ''}}''
         else ''{{bookmark:'' @ url @ ''}}'')"
| "own_line prefix i (Child_page title) = ''**[Child Page: '' @ title @ '']** (id: '' @ i @ '')''"
| "own_line prefix i (Child_database title) =
     ''**[Child Database: '' @ title @ '']** (id: '' @ i @ '')''"
| "own_line prefix i (Embed url) = ''{{embed:'' @ url @ ''}}''"
| "own_line prefix i (Video src) = ''[Video]('' @ source_url src @ '')''"
| "own_line prefix i (File src caption) =
     ''['' @ (case caption of Some c \<Rightarrow> richTextToMarkdown c | None \<Rightarrow> ''File'')
       @ '']('' @ source_url src @ '')''"
| "own_line prefix i (Pdf src) = ''[PDF]('' @ source_url src @ '')''"
| "own_line prefix i (Equation expression) = ''$$'' @ expression @ ''$$''"
| "own_line prefix i Table_of_contents = ''<!-- '' @ type_name Table_of_contents @ '' -->''"
| "own_line prefix i Breadcrumb = ''<!-- '' @ type_name Breadcrumb @ '' -->''"
| "own_line prefix i p = ''<!-- unsupported block type: '' @ type_name p @ '' -->''"

text \<open>The loop over the rows of a table; the first argument is the index \<^verbatim>\<open>i\<close>.\<close>

definition row_line :: "string list \<Rightarrow> string" where
  "row_line cells = ''| '' @ join '' | '' cells @ '' |''"

fun table_lines :: "nat \<Rightarrow> BlockObjectResponse list \<Rightarrow> string list" where
  "table_lines i [] = []"
| "table_lines i (row # rows) =
     (case payload row of
        Table_row cs \<Rightarrow>
          (let cells = map richTextToMarkdown cs
           in row_line cells # (if i = 0 then [row_line (map (\<lambda>c. ''---'') cells)] else []))
          @ table_lines (Suc i) rows
      | _ \<Rightarrow> table_lines (Suc i) rows)"

subsection \<open>The traversal\<close>

text \<open>
  \<^verbatim>\<open>collectAllBlocks\<close> is the provider of the children of a block; it is a parameter of
  the traversal, and \<^term>\<open>None\<close> is a rejected fetch, which the traversal passes on.
  The recursion follows the provider, so it carries fuel: one unit for every level of
  nesting.
\<close>

datatype EncodeError = FetchFailed | FuelExhausted

text \<open>A \<^verbatim>\<open>for\<close> loop that awaits one result per element and stops at the first failure.\<close>

fun collect :: "('a \<Rightarrow> EncodeError + 'b) \<Rightarrow> 'a list \<Rightarrow> EncodeError + 'b list" where
  "collect f [] = Inr []"
| "collect f (x # xs) =
     (case f x of
        Inl e \<Rightarrow> Inl e
      | Inr y \<Rightarrow> (case collect f xs of Inl e \<Rightarrow> Inl e | Inr ys \<Rightarrow> Inr (y # ys)))"

definition fetch_blocks ::
  "(string \<Rightarrow> BlockObjectResponse list option) \<Rightarrow> string \<Rightarrow> EncodeError + BlockObjectResponse list" where
  "fetch_blocks collectAllBlocks i =
     (case collectAllBlocks i of None \<Rightarrow> Inl FetchFailed | Some bs \<Rightarrow> Inr bs)"

definition join_rendered :: "string \<Rightarrow> EncodeError + string list \<Rightarrow> EncodeError + string" where
  "join_rendered sep r = (case r of Inl e \<Rightarrow> Inl e | Inr parts \<Rightarrow> Inr (join sep parts))"

definition prefix_lines :: "string \<Rightarrow> string \<Rightarrow> string" where
  "prefix_lines prefix line = join [NL] (map (\<lambda>l. prefix @ l) (split_newline line))"

definition skips_children :: "BlockPayload \<Rightarrow> bool" where
  "skips_children p \<longleftrightarrow> p = Table \<or> p = Column_list \<or> p = Column"

fun is_toggle :: "BlockPayload \<Rightarrow> bool" where
  "is_toggle (Toggle rt) = True"
| "is_toggle _ = False"

fun blockToMarkdown ::
  "nat \<Rightarrow> (string \<Rightarrow> BlockObjectResponse list option) \<Rightarrow> BlockObjectResponse \<Rightarrow> nat
     \<Rightarrow> EncodeError + string" where
  "blockToMarkdown 0 collectAllBlocks block indent = Inl FuelExhausted"
| "blockToMarkdown (Suc fuel) collectAllBlocks block indent =
     (let prefix = repeat ''  '' indent;
          blocksToMarkdown = (\<lambda>blocks ind.
            join_rendered [NL]
              (collect (\<lambda>b. blockToMarkdown fuel collectAllBlocks b ind) blocks));
          line =
            (case payload block of
               Table \<Rightarrow>
                 (case fetch_blocks collectAllBlocks (block_id block) of
                    Inl e \<Rightarrow> Inl e
                  | Inr rows \<Rightarrow> Inr (join [NL] (table_lines 0 rows)))
             | Column_list \<Rightarrow>
                 (case fetch_blocks collectAllBlocks (block_id block) of
                    Inl e \<Rightarrow> Inl e
                  | Inr columns \<Rightarrow>
                      join_rendered [NL, NL]
                        (collect
                           (\<lambda>col. case fetch_blocks collectAllBlocks (block_id col) of
                                     Inl e \<Rightarrow> Inl e
                                   | Inr colBlocks \<Rightarrow> blocksToMarkdown colBlocks indent)
                           (filter (\<lambda>col. payload col = Column) columns)))
             | p \<Rightarrow> Inr (own_line prefix (block_id block) p))
      in case line of
           Inl e \<Rightarrow> Inl e
         | Inr line \<Rightarrow>
             (case (if has_children block \<and> \<not> skips_children (payload block)
                    then (case fetch_blocks collectAllBlocks (block_id block) of
                            Inl e \<Rightarrow> Inl e
                          | Inr childBlocks \<Rightarrow> blocksToMarkdown childBlocks (indent + 1))
                    else Inr []) of
                Inl e \<Rightarrow> Inl e
              | Inr children \<Rightarrow>
                  (let prefixed = prefix_lines prefix line
                   in if is_toggle (payload block) \<and> children \<noteq> []
                      then Inr (prefixed @ [NL] @ children @ [NL] @ prefix @ ''</details>'')
                      else Inr (if children \<noteq> [] then prefixed @ [NL] @ children else prefixed))))"

definition blocksToMarkdown ::
  "nat \<Rightarrow> (string \<Rightarrow> BlockObjectResponse list option) \<Rightarrow> BlockObjectResponse list \<Rightarrow> nat
     \<Rightarrow> EncodeError + string" where
  "blocksToMarkdown fuel collectAllBlocks blocks indent =
     join_rendered [NL] (collect (\<lambda>b. blockToMarkdown fuel collectAllBlocks b indent) blocks)"

section \<open>Notions used by the properties\<close>

text \<open>A literal run of the store, and the wrapping steps of the span encoder one by one.\<close>

definition literal_run :: "string \<Rightarrow> string option \<Rightarrow> Annotations \<Rightarrow> RichTextItemResponse" where
  "literal_run t target ann = \<lparr>item_type = TextItem target, plain_text = t, item_annotations = ann\<rparr>"

definition all_annotations :: Annotations where
  "all_annotations = \<lparr>bold = True, italic = True, strikethrough = True, code = True\<rparr>"



definition wrap_marker :: "bool \<Rightarrow> string \<Rightarrow> string \<Rightarrow> string" where
  "wrap_marker on marker text = (if on then marker @ text @ marker else text)"

definition wrap_link :: "string option \<Rightarrow> string \<Rightarrow> string" where
  "wrap_link target text =
     (case target of Some url \<Rightarrow> ''['' @ text @ '']('' @ url @ '')'' | None \<Rightarrow> text)"


text \<open>The cells of a table row, rendered.\<close>

definition row_cells :: "BlockObjectResponse \<Rightarrow> string list" where
  "row_cells row = (case payload row of Table_row cs \<Rightarrow> map richTextToMarkdown cs | _ \<Rightarrow> [])"

text \<open>The checks of \<^verbatim>\<open>markdownToBlocks\<close> that look at the trimmed line, in the order of the
  source: divider, bookmark, embed.\<close>

definition trimmed_block :: "string \<Rightarrow> BlockInput option" where
  "trimmed_block t =
     (if dividerTest t then Some DividerInput
      else case bookmarkMatch t of
        Some (u, cap) \<Rightarrow>
          Some (BookmarkInput (trim u) (case cap of Some c \<Rightarrow> [plain_run (trim c)] | None \<Rightarrow> []))
      | None \<Rightarrow> (case embedMatch t of Some u \<Rightarrow> Some (EmbedInput (trim u)) | None \<Rightarrow> None))"

text \<open>A small store: a list item whose child is a toggle with two paragraphs, and a table
  with two rows, the first of which claims to have children.\<close>

definition paragraph_block :: "string \<Rightarrow> string \<Rightarrow> BlockObjectResponse" where
  "paragraph_block i t =
     \<lparr>block_id = i, has_children = False, payload = Paragraph [literal_run t None no_annotations]\<rparr>"

definition toggle_block :: BlockObjectResponse where
  "toggle_block =
     \<lparr>block_id = ''toggle'', has_children = True,
      payload = Toggle [literal_run ''Summary'' None no_annotations]\<rparr>"

definition list_item_block :: BlockObjectResponse where
  "list_item_block =
     \<lparr>block_id = ''item'', has_children = True,
      payload = Bulleted_list_item [literal_run ''Item'' None no_annotations]\<rparr>"

definition table_block :: BlockObjectResponse where
  "table_block = \<lparr>block_id = ''table'', has_children = True, payload = Table\<rparr>"

definition table_row_block :: "string \<Rightarrow> bool \<Rightarrow> string list \<Rightarrow> BlockObjectResponse" where
  "table_row_block i h cells =
     \<lparr>block_id = i, has_children = h,
      payload = Table_row (map (\<lambda>t. [literal_run t None no_annotations]) cells)\<rparr>"

definition example_store :: "string \<Rightarrow> BlockObjectResponse list option" where
  "example_store i =
     (if i = ''item'' then Some [toggle_block]
      else if i = ''toggle'' then Some [paragraph_block ''p1'' ''one'', paragraph_block ''p2'' ''two'']
      else if i = ''table''
        then Some [table_row_block ''r1'' True [''a'', ''b''], table_row_block ''r2'' False [''c'', ''d'']]
      else if i = ''r1'' then None
      else Some [])"

text \<open>A table with a line feed in a header cell.\<close>

definition multiline_store :: "string \<Rightarrow> BlockObjectResponse list option" where
  "multiline_store i =
     (if i = ''table''
        then Some [table_row_block ''r1'' False [''a'' @ [NL] @ ''b'', ''c''],
                   table_row_block ''r2'' False [''d'', ''e'']]
      else Some [])"

text \<open>The number of leading spaces of a line, and the lines of a rendering.\<close>

definition indentation :: "string \<Rightarrow> nat" where
  "indentation line = length (takeWhile (\<lambda>c. c = CHR '' '') line)"

definition rendered_lines :: "EncodeError + string \<Rightarrow> string list" where
  "rendered_lines r = (case r of Inl e \<Rightarrow> [] | Inr text \<Rightarrow> split_newline text)"














section \<open>Facts about the matchers\<close>

lemma lit_mismatch: "p \<noteq> [] \<Longrightarrow> hd p \<noteq> c \<Longrightarrow> lit p k (c # cs) = None"
  by (cases p) (auto simp: lit_def)

lemma lit_append: "lit p k (p @ s) = k s"
  by (simp add: lit_def startsWith_iff)

text \<open>A greedy run whose continuation never fails takes the longest run.\<close>

lemma greedy_star_total:
  "(\<And>a r. k a r \<noteq> None) \<Longrightarrow>
   greedy_star P k acc s = k (acc @ takeWhile P s) (dropWhile P s)"
proof (induction s arbitrary: acc)
  case Nil
  then show ?case by simp
next
  case (Cons c cs)
  show ?case
  proof (cases "P c")
    case True
    from Cons.prems have "k (acc @ c # takeWhile P cs) (dropWhile P cs) \<noteq> None" by blast
    then obtain r where "k (acc @ c # takeWhile P cs) (dropWhile P cs) = Some r" by blast
    with True Cons.IH [OF Cons.prems, of "acc @ [c]"] show ?thesis by simp
  next
    case False
    then show ?thesis by simp
  qed
qed




text \<open>A character that starts no marker starts a plain run, which extends to the next
  marker character.\<close>

lemma inline_match_plain:
  assumes "\<not> is_marker c"
  shows "inline_match (c # cs) =
     Some (plain_run (c # takeWhile (\<lambda>c. \<not> is_marker c) cs), dropWhile (\<lambda>c. \<not> is_marker c) cs)"
proof -
  from assms have c: "c \<noteq> CHR ''{''" "c \<noteq> CHR ''[''" "c \<noteq> CHR ''*''" "c \<noteq> CHR ''`''" "c \<noteq> CHR ''~''"
    by (auto simp: is_marker_def)
  have "alt_mention (c # cs) = None" "alt_link (c # cs) = None" "alt_bold (c # cs) = None"
    "alt_italic (c # cs) = None" "alt_code (c # cs) = None" "alt_strikethrough (c # cs) = None"
    using c by (simp_all add: alt_mention_def alt_link_def alt_bold_def alt_italic_def
        alt_code_def alt_strikethrough_def alt_delimited_def lit_mismatch)
  moreover have "alt_plain (c # cs) =
     Some (plain_run (c # takeWhile (\<lambda>c. \<not> is_marker c) cs), dropWhile (\<lambda>c. \<not> is_marker c) cs)"
    using assms by (simp add: alt_plain_def greedy_plus_def greedy_star_total plain_run_def)
  ultimately show ?thesis by (simp add: inline_match_def)
qed

lemma parseInline_plain_start:
  assumes "\<not> is_marker c"
  shows "parseInlineMarkdown (c # cs) =
     plain_run (c # takeWhile (\<lambda>c. \<not> is_marker c) cs)
       # parse_loop (dropWhile (\<lambda>c. \<not> is_marker c) cs)"
  using inline_match_plain [OF assms, of cs]
  by (simp add: parseInlineMarkdown_def parse_loop.simps [of "c # cs"])

lemma space_not_marker: "is_space c \<Longrightarrow> \<not> is_marker c"
  by (auto simp: is_space_def is_marker_def)

lemma trim_indented: "is_space c \<Longrightarrow> trim (c # cs) = trim cs"
  by (simp add: trim_def)

text \<open>The patterns that are matched against the line as it is fail on a line that starts
  with white space.\<close>

lemma indented_patterns_fail:
  assumes "is_space c"
  shows "headingMatch (c # cs) = None" "todoMatch (c # cs) = None" "bulletMatch (c # cs) = None"
    "numberedMatch (c # cs) = None" "quoteMatch (c # cs) = None" "imageMatch (c # cs) = None"
proof -
  from assms have "\<not> is_hash c" "\<not> is_bullet c" "\<not> is_digit c" "c \<noteq> CHR ''>''" "c \<noteq> CHR ''!''"
    by (auto simp: is_space_def is_hash_def is_bullet_def is_digit_def)
  then show "headingMatch (c # cs) = None" "todoMatch (c # cs) = None" "bulletMatch (c # cs) = None"
    "numberedMatch (c # cs) = None" "quoteMatch (c # cs) = None" "imageMatch (c # cs) = None"
    by (simp_all add: headingMatch_def todoMatch_def bulletMatch_def numberedMatch_def
        quoteMatch_def imageMatch_def one_of_def greedy_plus_def lit_mismatch)
qed

section \<open>Facts about the decoder\<close>

lemma is_fence_not_blank: "is_fence line \<Longrightarrow> trim line \<noteq> []"
  by (auto simp: is_fence_def)

text \<open>After an even number of fence lines the loop is outside every code block, so it
  decodes what follows on its own.\<close>

lemma markdownToBlocks_loop_append:
  "even (length (filter is_fence pre)) \<Longrightarrow>
   markdownToBlocks_loop (pre @ ys) = markdownToBlocks_loop pre @ markdownToBlocks_loop ys"
proof (induction pre rule: markdownToBlocks_loop.induct)
  case 1
  then show ?case by simp
next
  case (2 line rest)
  show ?case
  proof (cases "trim line = []")
    case True
    then have "\<not> is_fence line" using is_fence_not_blank by blast
    with True 2 show ?thesis by simp
  next
    case blank: False
    show ?thesis
    proof (cases "is_fence line")
      case False
      with blank 2 show ?thesis by simp
    next
      case True
      let ?P = "\<lambda>l. \<not> is_fence l"
      from True "2.prems" have odd: "odd (length (filter is_fence rest))" by simp
      have "filter is_fence (takeWhile ?P rest) = []"
        by (induction rest) auto
      then have cnt: "length (filter is_fence rest) = length (filter is_fence (dropWhile ?P rest))"
        by (metis append_Nil filter_append takeWhile_dropWhile_id)
      with odd obtain f rest' where d: "dropWhile ?P rest = f # rest'"
        by (cases "dropWhile ?P rest") auto
      have f: "is_fence f" using d by (metis hd_dropWhile list.distinct(1) list.sel(1))
      from odd cnt d f have ev: "even (length (filter is_fence rest'))" by simp
      have fin: "f \<in> set rest" using d by (metis list.set_intros(1) set_dropWhileD)
      have nf: "\<not> ?P f" using f by simp
      have tw: "takeWhile ?P (rest @ ys) = takeWhile ?P rest"
        using fin nf by (rule takeWhile_append1 [where P = "?P"])
      have dw: "dropWhile ?P (rest @ ys) = dropWhile ?P rest @ ys"
        using fin nf by (rule dropWhile_append1 [where P = "?P"])
      have ih: "markdownToBlocks_loop (rest' @ ys)
                 = markdownToBlocks_loop rest' @ markdownToBlocks_loop ys"
        using "2.IH"(2) [OF blank True] ev d by simp
      show ?thesis using blank True tw dw d ih by simp
    qed
  qed
qed

text \<open>The tag of a fence line is the run of word characters after the three backticks;
  the stored language is its image under \<^verbatim>\<open>mapLanguage\<close>.\<close>

lemma fence_language_tag:
  assumes "trim line = ''```'' @ tag @ rest" and "list_all is_word tag"
    and "rest = [] \<or> \<not> is_word (hd rest)"
  shows "fence_language line = (if tag = [] then ''plain text'' else tag)"
proof -
  from assms(2,3) have "takeWhile is_word (tag @ rest) = tag"
    by (cases rest) (auto simp: list_all_iff takeWhile_append2 [where ys = "_ # _"] )
  then show ?thesis
    unfolding fence_language_def langMatch_def assms(1) lit_append
    by (simp add: greedy_star_total)
qed

lemma mapLanguage_cases:
  "mapLanguage lang =
     (case map_of language_map (toLowerCase lang) of
        Some v \<Rightarrow> Str v
      | None \<Rightarrow> if toLowerCase lang \<in> set object_prototype_members
                then ObjectPrototypeMember (toLowerCase lang) else Str (toLowerCase lang))"
  by (simp add: mapLanguage_def Let_def)

text \<open>What a fence opener stores: the canonical name for a tag of the table, the value
  "plain text" for no tag, an inherited member of the prototype for a tag that names one,
  and the tag in lower case otherwise.\<close>

lemma language_normalization:
  assumes "trim line = ''```'' @ tag @ rest" and "list_all is_word tag"
    and "rest = [] \<or> \<not> is_word (hd rest)"
  shows "markdownToBlocks_loop (line # lines) =
     CodeInput [plain_run (join [NL] (takeWhile (\<lambda>l. \<not> is_fence l) lines))]
         (if tag = [] then Str ''plain text''
          else case map_of language_map (toLowerCase tag) of
                 Some v \<Rightarrow> Str v
               | None \<Rightarrow> if toLowerCase tag \<in> set object_prototype_members
                         then ObjectPrototypeMember (toLowerCase tag)
                         else Str (toLowerCase tag))
       # markdownToBlocks_loop (drop 1 (dropWhile (\<lambda>l. \<not> is_fence l) lines))"
proof -
  have f: "is_fence line" by (simp add: is_fence_def assms(1))
  then have nb: "trim line \<noteq> []" by (auto simp: is_fence_def)
  have p: "mapLanguage ''plain text'' = Str ''plain text''" by code_simp
  have "mapLanguage (fence_language line) =
         (if tag = [] then Str ''plain text''
          else case map_of language_map (toLowerCase tag) of
                 Some v \<Rightarrow> Str v
               | None \<Rightarrow> if toLowerCase tag \<in> set object_prototype_members
                         then ObjectPrototypeMember (toLowerCase tag)
                         else Str (toLowerCase tag))"
  proof (cases "tag = []")
    case True
    then show ?thesis by (simp add: fence_language_tag [OF assms] p)
  next
    case False
    then show ?thesis by (simp add: fence_language_tag [OF assms] mapLanguage_cases [of tag])
  qed
  with f nb show ?thesis by simp
qed

section \<open>Facts about the encoder\<close>

lemma table_lines_data:
  "list_all (\<lambda>row. is_table_row (payload row)) rows \<Longrightarrow>
   table_lines (Suc i) rows = map (\<lambda>row. row_line (row_cells row)) rows"
proof (induction rows arbitrary: i)
  case Nil
  then show ?case by simp
next
  case (Cons r rows)
  then show ?case by (cases "payload r") (simp_all add: row_cells_def)
qed

lemma table_lines_header:
  assumes "list_all (\<lambda>row. is_table_row (payload row)) (r # rows)"
  shows "table_lines 0 (r # rows) =
     row_line (row_cells r) # row_line (map (\<lambda>c. ''---'') (row_cells r))
       # map (\<lambda>row. row_line (row_cells row)) rows"
proof -
  from assms have rows: "list_all (\<lambda>row. is_table_row (payload row)) rows" by simp
  from assms show ?thesis
    by (cases "payload r") (simp_all add: row_cells_def table_lines_data [OF rows])
qed

text \<open>A top-level toggle with two paragraphs below it: the summary is not indented, the
  paragraphs are, and the closing marker follows them. Without children there is no
  closing marker.\<close>

lemma toggle_top_level:
  "blocksToMarkdown 2 example_store [toggle_block] 0 =
     Inr (''<details>'' @ [NL] @ ''<summary>Summary</summary>'' @ [NL]
          @ ''  one'' @ [NL] @ ''  two'' @ [NL] @ ''</details>'')
   \<and> map indentation (rendered_lines (blocksToMarkdown 2 example_store [toggle_block] 0))
       = [0, 0, 2, 2, 0]
   \<and> blocksToMarkdown 2 example_store [toggle_block\<lparr>block_id := ''empty''\<rparr>] 0 =
     Inr (''<details>'' @ [NL] @ ''<summary>Summary</summary>'')"
  by code_simp

section \<open>Decoding an encoding\<close>


























lemma dropWhile_all: "list_all P a \<Longrightarrow> dropWhile P a = []"
  by (induction a) simp_all
















lemma hd_dropWhile_not: "dropWhile P xs \<noteq> [] \<Longrightarrow> \<not> P (hd (dropWhile P xs))"
  by (rule hd_dropWhile)















































text \<open>Lines.\<close>

lemma split_newline_not_Nil: "split_newline s \<noteq> []"
  by (induction s) (auto split: list.splits)

lemma split_newline_append:
  "split_newline (a @ NL # b) = split_newline a @ split_newline b"
proof (induction a)
  case Nil
  show ?case by simp
next
  case (Cons c a)
  show ?case
  proof (cases "c = NL")
    case True
    with Cons show ?thesis by simp
  next
    case False
    from split_newline_not_Nil [of a] obtain l ls where "split_newline a = l # ls"
      by (cases "split_newline a") auto
    with False Cons show ?thesis by simp
  qed
qed

lemma split_newline_single: "NL \<notin> set s \<Longrightarrow> split_newline s = [s]"
  by (induction s) auto


lemma split_newline_join:
  "xs \<noteq> [] \<Longrightarrow> split_newline (join [NL] xs) = concat (map split_newline xs)"
proof (induction xs)
  case Nil
  then show ?case by simp
next
  case (Cons x xs)
  show ?case
  proof (cases xs)
    case Nil
    then show ?thesis by simp
  next
    case (Cons y ys)
    with Cons.IH show ?thesis by (simp add: split_newline_append)
  qed
qed

lemma split_newline_lines:
  "l \<in> set (split_newline s) \<Longrightarrow> NL \<notin> set l \<and> set l \<subseteq> set s"
proof (induction s arbitrary: l)
  case Nil
  then show ?case by simp
next
  case (Cons c s)
  from split_newline_not_Nil [of s] obtain l0 ls where l0: "split_newline s = l0 # ls"
    by (cases "split_newline s") auto
  show ?case
  proof (cases "c = NL")
    case True
    with Cons show ?thesis by auto
  next
    case False
    with Cons.prems l0 have "l = c # l0 \<or> l \<in> set ls" by simp
    then show ?thesis
    proof
      assume l: "l = c # l0"
      from Cons.IH [of l0] l0 have "NL \<notin> set l0 \<and> set l0 \<subseteq> set s" by simp
      with l False show ?thesis by auto
    next
      assume "l \<in> set ls"
      with Cons.IH [of l] l0 show ?thesis by auto
    qed
  qed
qed











section \<open>The lines of a table\<close>

lemma join_set: "set (join sep xs) \<subseteq> set sep \<union> \<Union> (set ` set xs)"
  by (induction sep xs rule: join.induct) auto

lemma join_member: "x \<in> set xs \<Longrightarrow> set x \<subseteq> set (join sep xs)"
  by (induction sep xs rule: join.induct) auto

lemma row_line_NL: "NL \<in> set (row_line cells) \<longleftrightarrow> (\<exists>cell \<in> set cells. NL \<in> set cell)"
proof
  assume "NL \<in> set (row_line cells)"
  then have "NL \<in> set (join '' | '' cells)" by (auto simp: row_line_def)
  with join_set [of "'' | ''" cells] show "\<exists>cell \<in> set cells. NL \<in> set cell" by auto
next
  assume "\<exists>cell \<in> set cells. NL \<in> set cell"
  then obtain cell where "cell \<in> set cells" "NL \<in> set cell" by blast
  with join_member [of cell cells "'' | ''"] show "NL \<in> set (row_line cells)"
    by (auto simp: row_line_def)
qed

lemma split_newline_join_lines:
  assumes "ls \<noteq> []" and "\<forall>l \<in> set ls. NL \<notin> set l"
  shows "split_newline (join [NL] ls) = ls"
proof -
  from assms(2) have "concat (map split_newline ls) = ls"
    by (induction ls) (simp_all add: split_newline_single)
  with split_newline_join [OF assms(1)] show ?thesis by simp
qed

lemma repeat_spaces: "NL \<notin> set (repeat ''  '' n)"
  by (induction n) simp_all

lemma rendered_prefix_lines:
  assumes "ls \<noteq> []" and "NL \<notin> set p"
  shows "rendered_lines (Inr (prefix_lines p (join [NL] ls))) = map (\<lambda>l. p @ l) ls
     \<longleftrightarrow> (\<forall>l \<in> set ls. NL \<notin> set l)"
proof
  assume a: "\<forall>l \<in> set ls. NL \<notin> set l"
  from split_newline_join_lines [OF assms(1) a]
  have 1: "prefix_lines p (join [NL] ls) = join [NL] (map (\<lambda>l. p @ l) ls)"
    by (simp add: prefix_lines_def)
  from a assms(2) have "\<forall>l \<in> set (map (\<lambda>l. p @ l) ls). NL \<notin> set l" by auto
  moreover from assms(1) have "map (\<lambda>l. p @ l) ls \<noteq> []" by simp
  ultimately have "split_newline (join [NL] (map (\<lambda>l. p @ l) ls)) = map (\<lambda>l. p @ l) ls"
    by (rule split_newline_join_lines [rotated])
  with 1 show "rendered_lines (Inr (prefix_lines p (join [NL] ls))) = map (\<lambda>l. p @ l) ls"
    by (simp add: rendered_lines_def)
next
  assume "rendered_lines (Inr (prefix_lines p (join [NL] ls))) = map (\<lambda>l. p @ l) ls"
  then have e: "split_newline (prefix_lines p (join [NL] ls)) = map (\<lambda>l. p @ l) ls"
    by (simp add: rendered_lines_def)
  show "\<forall>l \<in> set ls. NL \<notin> set l"
  proof
    fix l assume "l \<in> set ls"
    then have "p @ l \<in> set (split_newline (prefix_lines p (join [NL] ls)))"
      unfolding e by simp
    from split_newline_lines [OF this] show "NL \<notin> set l" by simp
  qed
qed

section \<open>Delimited runs\<close>








section \<open>Properties\<close>

subsection \<open>Encoding a decoded list again\<close>




subsection \<open>Unclosed fences\<close>

text \<open>
  Claim C2. The decoder is a total function. When a fence line follows an even number of
  fence lines (so it opens a code block) and no later line is a fence line, the decoder
  returns the blocks of the lines before it and then one code block, the last block,
  whose content is all the lines after the fence joined by line feeds.
\<close>

theorem unclosed_fence:
  assumes "split_newline markdown = pre @ line # rest"
    and "even (length (filter is_fence pre))"
    and "is_fence line"
    and "list_all (\<lambda>l. \<not> is_fence l) rest"
  shows "markdownToBlocks markdown =
     markdownToBlocks_loop pre
       @ [CodeInput [plain_run (join [NL] rest)] (mapLanguage (fence_language line))]"
proof -
  from assms(4) have tw: "takeWhile (\<lambda>l. \<not> is_fence l) rest = rest"
    and dw: "dropWhile (\<lambda>l. \<not> is_fence l) rest = []"
    by (simp_all add: list_all_iff)
  from assms(3) have nb: "trim line \<noteq> []" by (rule is_fence_not_blank)
  have "markdownToBlocks_loop (line # rest) =
       CodeInput [plain_run (join [NL] (takeWhile (\<lambda>l. \<not> is_fence l) rest))]
           (mapLanguage (fence_language line))
         # markdownToBlocks_loop (drop 1 (dropWhile (\<lambda>l. \<not> is_fence l) rest))"
    using assms(3) nb by simp
  then have
    "markdownToBlocks_loop (line # rest) =
       [CodeInput [plain_run (join [NL] rest)] (mapLanguage (fence_language line))]"
    unfolding tw dw by simp
  with markdownToBlocks_loop_append [OF assms(2)] assms(1) show ?thesis
    by (simp add: markdownToBlocks_def)
qed

theorem unclosed_fence_witness:
  "markdownToBlocks (''intro'' @ [NL] @ ''```js'' @ [NL] @ ''let a'' @ [NL, NL] @ ''let b'')
     = [ParagraphInput [plain_run ''intro''],
        CodeInput [plain_run (''let a'' @ [NL, NL] @ ''let b'')] (Str ''javascript'')]"
proof -
  have 1: "split_newline (''intro'' @ [NL] @ ''```js'' @ [NL] @ ''let a'' @ [NL, NL] @ ''let b'')
             = [''intro''] @ ''```js'' # [''let a'', [], ''let b'']"
    by code_simp
  have 2: "even (length (filter is_fence [''intro'']))" by code_simp
  have 3: "is_fence ''```js''" by code_simp
  have 4: "list_all (\<lambda>l. \<not> is_fence l) [''let a'', [], ''let b'']" by code_simp
  have 5: "markdownToBlocks_loop [''intro'']
             @ [CodeInput [plain_run (join [NL] [''let a'', [], ''let b''])]
                  (mapLanguage (fence_language ''```js''))]
           = [ParagraphInput [plain_run ''intro''],
              CodeInput [plain_run (''let a'' @ [NL, NL] @ ''let b'')] (Str ''javascript'')]"
    by code_simp
  from unclosed_fence [OF 1 2 3 4] 5 show ?thesis by (simp only:)
qed

subsection \<open>Priority of the line patterns\<close>

text \<open>
  Claim C3. The line \<^verbatim>\<open>- [x] done\<close> decodes to one checklist item that is checked, although
  the bullet pattern matches the line as well: the checklist pattern is tried first. The
  line \<^verbatim>\<open>---\<close> decodes to one divider; neither the bullet pattern nor the numbered
  pattern matches it.
\<close>

theorem priority_resolution:
  "markdownToBlocks ''- [x] done'' = [ToDoInput [plain_run ''done''] True]
   \<and> bulletMatch ''- [x] done'' = Some ''[x] done''
   \<and> markdownToBlocks ''---'' = [DividerInput]
   \<and> bulletMatch ''---'' = None \<and> numberedMatch ''---'' = None"
  by code_simp

subsection \<open>Round trip of the bold annotation\<close>




subsection \<open>A decoding scenario\<close>

text \<open>
  Claim C5. A heading, two checklist items and a fenced code block with the tag \<^verbatim>\<open>py\<close>,
  separated by blank lines, decode to exactly four blocks: heading 1 "Title", an
  unchecked item "todo1", a checked item "todo2", and code in the language "python" with
  the content "print(1)". The blank lines give no block.
\<close>

theorem scenario_decode:
  "markdownToBlocks
     (''# Title'' @ [NL, NL] @ ''- [ ] todo1'' @ [NL] @ ''- [x] todo2'' @ [NL, NL]
        @ ''```py'' @ [NL] @ ''print(1)'' @ [NL] @ ''```'')
   = [Heading1Input [plain_run ''Title''],
      ToDoInput [plain_run ''todo1''] False,
      ToDoInput [plain_run ''todo2''] True,
      CodeInput [plain_run ''print(1)''] (Str ''python'')]"
  by code_simp

subsection \<open>Nesting order of the annotation markers\<close>

text \<open>
  Claim C6, as stated, gives \<^verbatim>\<open>~~***`t`**~~\<close> for a run with all four annotations. The
  encoder closes with three asterisks, as it opened; and a run with empty content is
  encoded as the empty string, without any marker.
\<close>

theorem annotation_order_counterexample:
  "richTextToMarkdown [literal_run ''t'' None all_annotations] = ''~~***`t`***~~''
   \<and> richTextToMarkdown [literal_run ''t'' None all_annotations] \<noteq> ''~~***`t`**~~''
   \<and> richTextToMarkdown [literal_run [] None all_annotations] = []"
  by code_simp

text \<open>
  Claim C6, amended. For every literal run the encoder gives the empty string when the
  content is empty; otherwise it wraps the content in the code marker first, then bold,
  then italic, then strikethrough, and last in the link marker when the run has a link
  target. So a run without link that has all four annotations and a content that is not
  empty is encoded with the markers \<^verbatim>\<open>~~***`\<close> before the content and the same markers in the
  opposite order, three asterisks again, after it.
\<close>

theorem annotation_order:
  "richTextToMarkdown [literal_run t target ann]
     = (if t = [] then []
        else wrap_link target
         (wrap_marker (strikethrough ann) ''~~''
           (wrap_marker (italic ann) ''*''
             (wrap_marker (bold ann) ''**''
               (wrap_marker (code ann) ''`'' t)))))
   \<and> richTextToMarkdown [literal_run t None all_annotations]
     = (if t = [] then [] else ''~~***`'' @ t @ ''`***~~'')"
  by (simp add: richTextToMarkdown_def richTextItemToMarkdown_def literal_run_def
      wrap_marker_def wrap_link_def all_annotations_def Let_def split: option.splits)

theorem annotation_order_witness:
  "richTextToMarkdown [literal_run ''t'' (Some ''u'') all_annotations] = ''[~~***`t`***~~](u)''
   \<and> richTextToMarkdown [literal_run [] (Some ''u'') all_annotations] = []"
  using annotation_order [of "''t''" "Some ''u''" all_annotations]
    annotation_order [of "[]" "Some ''u''" all_annotations]
  by (simp add: wrap_marker_def wrap_link_def all_annotations_def)

subsection \<open>Toggles below the top level\<close>

text \<open>
  Claim C7 at a toggle that is the child of a list item, so it is rendered at indent 1:
  the opening and the closing marker get two spaces, the summary line four (the prefix
  is put before it twice), and the two paragraphs four as well. The children are not
  indented more than the summary line.
\<close>

theorem toggle_nested_indentation:
  "blocksToMarkdown 3 example_store [list_item_block] 0 =
     Inr (''- Item'' @ [NL] @ ''  <details>'' @ [NL] @ ''    <summary>Summary</summary>'' @ [NL]
          @ ''    one'' @ [NL] @ ''    two'' @ [NL] @ ''  </details>'')
   \<and> map indentation (rendered_lines (blocksToMarkdown 3 example_store [list_item_block] 0))
       = [0, 2, 4, 4, 4, 2]"
  by code_simp

subsection \<open>Normalization of the fence language\<close>

text \<open>
  Claim C8 at the tag \<^verbatim>\<open>constructor\<close>, which is not in the alias table: the stored language
  is not the string "constructor" but the member of that name which the table object
  inherits.
\<close>

theorem fence_language_inherited:
  "markdownToBlocks (''```constructor'' @ [NL] @ ''x'' @ [NL] @ ''```'')
     = [CodeInput [plain_run ''x''] (ObjectPrototypeMember ''constructor'')]"
  by code_simp

subsection \<open>Tables\<close>

text \<open>
  Claim C9, as stated, fails for a table with a line feed in the text of a cell: the row
  of that cell is rendered on more than one line. Here the header row takes two lines.
\<close>

theorem table_encoding_counterexample:
  "payload table_block = Table
   \<and> multiline_store (block_id table_block)
       = Some [table_row_block ''r1'' False [''a'' @ [NL] @ ''b'', ''c''],
               table_row_block ''r2'' False [''d'', ''e'']]
   \<and> is_table_row (payload (table_row_block ''r1'' False [''a'' @ [NL] @ ''b'', ''c'']))
   \<and> is_table_row (payload (table_row_block ''r2'' False [''d'', ''e'']))
   \<and> rendered_lines (blockToMarkdown 1 multiline_store table_block 0)
       = [''| a'', ''b | c |'', ''| --- | --- |'', ''| d | e |'']"
  by code_simp

text \<open>
  Claim C9, amended. For a table whose fetched children are all table rows, the rendering
  is the header row, then the separator row with one \<^verbatim>\<open>---\<close> cell for every header cell,
  then the later rows in order, joined by line feeds and prefixed line by line; this
  holds for any fuel above zero and whatever \<^verbatim>\<open>has_children\<close> says for the table and its
  rows: nothing but the rows of the table is fetched. The lines of the rendering are
  exactly the header line, the separator line and one data line for every later row if
  and only if no rendered cell of the table contains a line feed.
\<close>

theorem table_encoding:
  assumes "payload block = Table"
    and "collectAllBlocks (block_id block) = Some (r # rows)"
    and "list_all (\<lambda>row. is_table_row (payload row)) (r # rows)"
  shows "blockToMarkdown (Suc fuel) collectAllBlocks block indent =
     Inr (prefix_lines (repeat ''  '' indent)
            (join [NL]
               (row_line (row_cells r) # row_line (map (\<lambda>c. ''---'') (row_cells r))
                  # map (\<lambda>row. row_line (row_cells row)) rows)))
   \<and> (rendered_lines (blockToMarkdown (Suc fuel) collectAllBlocks block indent)
        = map (\<lambda>l. repeat ''  '' indent @ l)
            (row_line (row_cells r) # row_line (map (\<lambda>c. ''---'') (row_cells r))
               # map (\<lambda>row. row_line (row_cells row)) rows)
      \<longleftrightarrow> (\<forall>row \<in> set (r # rows). \<forall>cell \<in> set (row_cells row). NL \<notin> set cell))"
proof -
  let ?ls = "row_line (row_cells r) # row_line (map (\<lambda>c. ''---'') (row_cells r))
                  # map (\<lambda>row. row_line (row_cells row)) rows"
  have 1: "blockToMarkdown (Suc fuel) collectAllBlocks block indent =
     Inr (prefix_lines (repeat ''  '' indent) (join [NL] ?ls))"
    using assms(1,2) table_lines_header [OF assms(3)]
    by (simp add: fetch_blocks_def skips_children_def)
  have sep: "NL \<notin> set (row_line (map (\<lambda>c. ''---'') (row_cells r)))"
    by (auto simp: row_line_NL)
  have "(\<forall>l \<in> set ?ls. NL \<notin> set l)
     \<longleftrightarrow> (\<forall>row \<in> set (r # rows). \<forall>cell \<in> set (row_cells row). NL \<notin> set cell)"
    using sep by (auto simp: row_line_NL)
  with rendered_prefix_lines [of ?ls "repeat ''  '' indent"] repeat_spaces [of indent] 1
  show ?thesis by (simp only: list.simps(3) simp_thms)
qed

theorem table_encoding_witness:
  "blockToMarkdown 1 example_store table_block 1 =
     Inr (''  | a | b |'' @ [NL] @ ''  | --- | --- |'' @ [NL] @ ''  | c | d |'')
   \<and> rendered_lines (blockToMarkdown 1 example_store table_block 1)
       = [''  | a | b |'', ''  | --- | --- |'', ''  | c | d |'']"
proof -
  have 1: "payload table_block = Table" by (simp add: table_block_def)
  have 2: "example_store (block_id table_block) =
     Some (table_row_block ''r1'' True [''a'', ''b''] # [table_row_block ''r2'' False [''c'', ''d'']])"
    by (simp add: table_block_def example_store_def)
  have 3: "list_all (\<lambda>row. is_table_row (payload row))
     (table_row_block ''r1'' True [''a'', ''b''] # [table_row_block ''r2'' False [''c'', ''d'']])"
    by (simp add: table_row_block_def)
  have 4: "prefix_lines (repeat ''  '' 1)
            (join [NL]
               (row_line (row_cells (table_row_block ''r1'' True [''a'', ''b'']))
                  # row_line (map (\<lambda>c. ''---'') (row_cells (table_row_block ''r1'' True [''a'', ''b''])))
                  # map (\<lambda>row. row_line (row_cells row)) [table_row_block ''r2'' False [''c'', ''d'']]))
           = ''  | a | b |'' @ [NL] @ ''  | --- | --- |'' @ [NL] @ ''  | c | d |''"
    by code_simp
  have 5: "\<forall>row \<in> set (table_row_block ''r1'' True [''a'', ''b''] # [table_row_block ''r2'' False [''c'', ''d'']]).
             \<forall>cell \<in> set (row_cells row). NL \<notin> set cell"
    by (simp add: table_row_block_def row_cells_def richTextToMarkdown_def
        richTextItemToMarkdown_def literal_run_def no_annotations_def)
  have 6: "map (\<lambda>l. repeat ''  '' 1 @ l)
            (row_line (row_cells (table_row_block ''r1'' True [''a'', ''b'']))
               # row_line (map (\<lambda>c. ''---'') (row_cells (table_row_block ''r1'' True [''a'', ''b''])))
               # map (\<lambda>row. row_line (row_cells row)) [table_row_block ''r2'' False [''c'', ''d'']])
           = [''  | a | b |'', ''  | --- | --- |'', ''  | c | d |'']"
    by code_simp
  note t = table_encoding
    [where collectAllBlocks = example_store and block = table_block and fuel = 0 and indent = 1,
      OF 1 2 3]
  from t [THEN conjunct1] 4
  have a: "blockToMarkdown 1 example_store table_block 1 =
     Inr (''  | a | b |'' @ [NL] @ ''  | --- | --- |'' @ [NL] @ ''  | c | d |'')"
    by (simp only: One_nat_def)
  from t [THEN conjunct2, THEN iffD2, OF 5] 6
  have b: "rendered_lines (blockToMarkdown 1 example_store table_block 1)
       = [''  | a | b |'', ''  | --- | --- |'', ''  | c | d |'']"
    by (simp only: One_nat_def)
  from a b show ?thesis by (rule conjI)
qed

subsection \<open>Indented lines\<close>

text \<open>
  Claim C10, as stated, fails for a line of white space only: it starts with a white-space
  character and is none of the four kinds that are matched on the trimmed line, but it
  is skipped as a blank line and gives no paragraph.
\<close>

theorem indentation_counterexample:
  "is_space CHR '' '' \<and> \<not> is_fence ''  '' \<and> trimmed_block (trim ''  '') = None
   \<and> markdownToBlocks ''  '' = []
   \<and> markdownToBlocks ('' '' @ [CHR 0x09]) = []"
  by code_simp

text \<open>
  Claim C10, amended. On a line that starts with a white-space character the heading,
  checklist, bullet, numbered, quote and image patterns do not match. The fence test and
  the divider, bookmark and embed patterns see the trimmed line, which is the trimmed
  line without that character, so they classify the line as they classify it
  unindented. A line that is blank is skipped. Every other such line becomes a
  paragraph, and the first run of the paragraph is a plain run that starts with the
  white-space character.
\<close>

theorem indentation_sensitivity:
  assumes "is_space c"
  shows "headingMatch (c # cs) = None \<and> todoMatch (c # cs) = None
     \<and> bulletMatch (c # cs) = None \<and> numberedMatch (c # cs) = None
     \<and> quoteMatch (c # cs) = None \<and> imageMatch (c # cs) = None
     \<and> trim (c # cs) = trim cs \<and> is_fence (c # cs) = is_fence cs
     \<and> markdownToBlocks_loop ((c # cs) # rest) =
         (if trim cs = [] then markdownToBlocks_loop rest
          else if is_fence cs then
            CodeInput [plain_run (join [NL] (takeWhile (\<lambda>l. \<not> is_fence l) rest))]
                (mapLanguage (fence_language cs))
              # markdownToBlocks_loop (drop 1 (dropWhile (\<lambda>l. \<not> is_fence l) rest))
          else (case trimmed_block (trim cs) of
                  Some b \<Rightarrow> b
                | None \<Rightarrow>
                    ParagraphInput
                      (plain_run (c # takeWhile (\<lambda>c. \<not> is_marker c) cs)
                         # parse_loop (dropWhile (\<lambda>c. \<not> is_marker c) cs)))
            # markdownToBlocks_loop rest)"
proof -
  note t = trim_indented [OF assms, of cs]
  have f: "is_fence (c # cs) = is_fence cs" by (simp add: is_fence_def t)
  have l: "fence_language (c # cs) = fence_language cs" by (simp add: fence_language_def t)
  have p: "parseInlineMarkdown (c # cs) =
     plain_run (c # takeWhile (\<lambda>c. \<not> is_marker c) cs)
       # parse_loop (dropWhile (\<lambda>c. \<not> is_marker c) cs)"
    by (rule parseInline_plain_start [OF space_not_marker [OF assms]])
  have b: "line_block (c # cs) =
     (case trimmed_block (trim cs) of
        Some b \<Rightarrow> b
      | None \<Rightarrow> ParagraphInput (parseInlineMarkdown (c # cs)))"
    by (simp add: line_block_def indented_patterns_fail [OF assms] t trimmed_block_def
        split: option.splits)
  show ?thesis
    using indented_patterns_fail [OF assms, of cs] t f l
    by (simp add: b p split: option.splits)
qed

theorem indentation_sensitivity_witness:
  "is_space CHR '' ''
   \<and> headingMatch ''  # Title'' = None
   \<and> markdownToBlocks_loop [''  # Title''] = [ParagraphInput [plain_run ''  # Title'']]
   \<and> markdownToBlocks_loop ['' - item''] = [ParagraphInput [plain_run '' - item'']]
   \<and> markdownToBlocks_loop [''  ---''] = [DividerInput]
   \<and> markdownToBlocks_loop [''  ```py'', ''x''] = [CodeInput [plain_run ''x''] (Str ''python'')]
   \<and> markdownToBlocks_loop [''  {{bookmark:u}}''] = [BookmarkInput ''u'' []]
   \<and> markdownToBlocks_loop [''  {{embed:u}}''] = [EmbedInput ''u'']"
proof -
  have 1: "is_space CHR '' ''" by (simp add: is_space_def)
  have 2: "(if trim '' # Title'' = [] then markdownToBlocks_loop []
          else if is_fence '' # Title'' then
            CodeInput [plain_run (join [NL] (takeWhile (\<lambda>l. \<not> is_fence l) []))]
                (mapLanguage (fence_language '' # Title''))
              # markdownToBlocks_loop (drop 1 (dropWhile (\<lambda>l. \<not> is_fence l) []))
          else (case trimmed_block (trim '' # Title'') of
                  Some b \<Rightarrow> b
                | None \<Rightarrow>
                    ParagraphInput
                      (plain_run (CHR '' '' # takeWhile (\<lambda>c. \<not> is_marker c) '' # Title'')
                         # parse_loop (dropWhile (\<lambda>c. \<not> is_marker c) '' # Title'')))
            # markdownToBlocks_loop [])
        = [ParagraphInput [plain_run ''  # Title'']]"
    by code_simp
  have 3: "markdownToBlocks_loop ['' - item''] = [ParagraphInput [plain_run '' - item'']]
   \<and> markdownToBlocks_loop [''  ---''] = [DividerInput]
   \<and> markdownToBlocks_loop [''  ```py'', ''x''] = [CodeInput [plain_run ''x''] (Str ''python'')]
   \<and> markdownToBlocks_loop [''  {{bookmark:u}}''] = [BookmarkInput ''u'' []]
   \<and> markdownToBlocks_loop [''  {{embed:u}}''] = [EmbedInput ''u'']"
    by code_simp
  from indentation_sensitivity [OF 1, of "'' # Title''" "[]"] 2 3 1 show ?thesis
    by (simp only: simp_thms)
qed

end
